theory Spec2Isabelle
  imports Main
begin

section \<open>Python values used by libdevm/core.py\<close>

text \<open>
  A Python \<open>str\<close> is a sequence of Unicode code points, a \<open>bytes\<close> object a sequence of
  8-bit characters. \<open>str_of\<close> reads an ASCII literal of this file as a \<open>str\<close>.
\<close>

type_synonym pystr = "nat list"
type_synonym bytes = "char list"

definition str_of :: "string \<Rightarrow> pystr" where
  "str_of cs = map of_char cs"

text \<open>
  \<open>s.encode("utf-8", errors="ignore")\<close>: every code point becomes its UTF-8 bytes; a lone
  surrogate (U+D800 .. U+DFFF) cannot be encoded and is dropped by \<open>errors="ignore"\<close>.
\<close>

definition utf8_char :: "nat \<Rightarrow> bytes" where
  "utf8_char c =
     (if c < 0x80 then [char_of c]
      else if c < 0x800 then [char_of (0xC0 + c div 0x40), char_of (0x80 + c mod 0x40)]
      else if 0xD800 \<le> c \<and> c \<le> 0xDFFF then []
      else if c < 0x10000 then
        [char_of (0xE0 + c div 0x1000), char_of (0x80 + c div 0x40 mod 0x40),
         char_of (0x80 + c mod 0x40)]
      else
        [char_of (0xF0 + c div 0x40000), char_of (0x80 + c div 0x1000 mod 0x40),
         char_of (0x80 + c div 0x40 mod 0x40), char_of (0x80 + c mod 0x40)])"

definition encode_utf8_ignore :: "pystr \<Rightarrow> bytes" where
  "encode_utf8_ignore s = concat (map utf8_char s)"

text \<open>\<open>b" ".join(parts)\<close>.\<close>

fun bytes_join_space :: "bytes list \<Rightarrow> bytes" where
  "bytes_join_space [] = []"
| "bytes_join_space [p] = p"
| "bytes_join_space (p # q # ps) = p @ '' '' @ bytes_join_space (q # ps)"

text \<open>\<open>os.EX_OK\<close> and \<open>os.EX_SOFTWARE\<close> (the values of sysexits.h).\<close>

definition EX_OK :: int where
  "EX_OK = 0"

definition EX_SOFTWARE :: int where
  "EX_SOFTWARE = 70"

text \<open>
  \<open>StepExecutionResult = namedtuple("StepExecutionResult", ["return_code", "stdout", "stderr"])\<close>
\<close>

record StepExecutionResult =
  return_code :: int
  stdout :: bytes
  stderr :: bytes

text \<open>
  Raised exceptions are values. \<open>Exception d\<close> is any instance of Python's class
  \<open>Exception\<close> whose \<open>str()\<close> is \<open>d\<close>; \<open>BaseException d\<close> is an exception outside
  that class (KeyboardInterrupt, SystemExit). The module's own \<open>BuilderException\<close>
  derives from \<open>BaseException\<close>, so its two subclasses are not instances of
  \<open>Exception\<close> either; they carry their \<open>msg\<close>.
\<close>

datatype exn =
    Exception pystr
  | BaseException pystr
  | HooksMissing pystr
  | CurrentHooksNotSet pystr

section \<open>The external collaborators\<close>

text \<open>
  The HTTP client, the file system, the archive extractor, the process runner and the
  process environment are not part of the repository. They are parameters of the model:
  operations on an arbitrary world \<open>'w\<close> that either raise or return. \<open>'r\<close> is the type
  of HTTP responses, \<open>'f\<close> the type of open files.
\<close>

record CompletedProcess =
  returncode :: int
  proc_stdout :: bytes
  proc_stderr :: bytes

record ('w, 'r, 'f) os_iface =
  requests_get :: "pystr \<Rightarrow> 'w \<Rightarrow> (exn + 'r) \<times> 'w"
  open_wb :: "pystr \<Rightarrow> 'w \<Rightarrow> (exn + 'f) \<times> 'w"
  copyfileobj :: "'r \<Rightarrow> 'f \<Rightarrow> 'w \<Rightarrow> exn option \<times> 'w"
  file_close :: "'f \<Rightarrow> 'w \<Rightarrow> exn option \<times> 'w"
  xtract :: "pystr \<Rightarrow> pystr option \<Rightarrow> bool \<Rightarrow> bool \<Rightarrow> bool \<Rightarrow> 'w \<Rightarrow> exn option \<times> 'w"
  rmtree :: "pystr \<Rightarrow> 'w \<Rightarrow> exn option \<times> 'w"
  getcwd :: "'w \<Rightarrow> exn + pystr"
  subprocess_run :: "pystr list \<Rightarrow> pystr \<Rightarrow> 'w \<Rightarrow> (exn + CompletedProcess) \<times> 'w"
  environ_get :: "pystr \<Rightarrow> 'w \<Rightarrow> pystr option"
  print_line :: "pystr \<Rightarrow> 'w \<Rightarrow> 'w"

section \<open>Steps\<close>

text \<open>
  A step is one of the four closures \<open>step_\<close> built by \<open>Builder.download\<close>,
  \<open>Builder.extract\<close>, \<open>Builder.rm\<close> and \<open>Builder.cmd\<close>, given by the variables it
  captures. The closure of \<open>cmd\<close> declares \<open>cwd\<close> nonlocal and assigns to it, so
  calling a step also returns the closure as the call leaves it.
\<close>

datatype step =
    Download pystr pystr
  | Extract pystr "pystr option" bool bool bool
  | Rm pystr
  | Cmd "pystr list" pystr

text \<open>
  \<open>except Exception as err: return StepExecutionResult(os.EX_SOFTWARE, b"", str(err).encode(...))\<close>:
  the handler takes instances of \<open>Exception\<close>; anything else goes on to the caller.
\<close>

fun except_Exception :: "exn \<Rightarrow> 'w \<Rightarrow> (exn + StepExecutionResult) \<times> 'w" where
  "except_Exception (Exception d) w =
     (Inr \<lparr>return_code = EX_SOFTWARE, stdout = [], stderr = encode_utf8_ignore d\<rparr>, w)"
| "except_Exception e w = (Inl e, w)"

text \<open>
  Leaving \<open>with open(path, 'wb') as f\<close> closes the file. When the body raised \<open>e\<close>, an
  exception raised by the close replaces it.
\<close>

definition with_exit :: "('w, 'r, 'f) os_iface \<Rightarrow> 'f \<Rightarrow> exn option \<Rightarrow> 'w \<Rightarrow> exn option \<times> 'w" where
  "with_exit os f body w =
     (case file_close os f w of
        (Some e', w') \<Rightarrow> (Some e', w')
      | (None, w') \<Rightarrow> (body, w'))"

definition download_step ::
  "('w, 'r, 'f) os_iface \<Rightarrow> pystr \<Rightarrow> pystr \<Rightarrow> 'w \<Rightarrow> (exn + StepExecutionResult) \<times> 'w" where
  "download_step os url path w =
     (case requests_get os url w of
        (Inl e, w1) \<Rightarrow> except_Exception e w1
      | (Inr r, w1) \<Rightarrow>
          (case open_wb os path w1 of
             (Inl e, w2) \<Rightarrow> except_Exception e w2
           | (Inr f, w2) \<Rightarrow>
               (case copyfileobj os r f w2 of
                  (body, w3) \<Rightarrow>
                    (case with_exit os f body w3 of
                       (Some e, w4) \<Rightarrow> except_Exception e w4
                     | (None, w4) \<Rightarrow>
                         (Inr \<lparr>return_code = EX_OK,
                               stdout = ''downloaded to '' @ encode_utf8_ignore path,
                               stderr = []\<rparr>, w4)))))"

text \<open>
  \<open>dest\<close> defaults to \<open>None\<close>; \<open>dest.encode(...)\<close> then raises the AttributeError
  below, inside the \<open>try\<close>, after \<open>xtract\<close> has returned.
\<close>

definition NoneType_has_no_encode :: string where
  "NoneType_has_no_encode =
     CHR 0x27 # ''NoneType'' @ CHR 0x27 # '' object has no attribute '' @ CHR 0x27 # ''encode'' @ [CHR 0x27]"

definition extract_step ::
  "('w, 'r, 'f) os_iface \<Rightarrow> pystr \<Rightarrow> pystr option \<Rightarrow> bool \<Rightarrow> bool \<Rightarrow> bool \<Rightarrow> 'w
     \<Rightarrow> (exn + StepExecutionResult) \<times> 'w" where
  "extract_step os src dest overwrite extract_all keep_intermediate w =
     (case xtract os src dest overwrite extract_all keep_intermediate w of
        (Some e, w1) \<Rightarrow> except_Exception e w1
      | (None, w1) \<Rightarrow>
          (case dest of
             None \<Rightarrow>
               except_Exception
                 (Exception (str_of NoneType_has_no_encode)) w1
           | Some d \<Rightarrow>
               (Inr \<lparr>return_code = EX_OK,
                     stdout = bytes_join_space
                       [''extracted'', encode_utf8_ignore src, ''to'', encode_utf8_ignore d],
                     stderr = []\<rparr>, w1)))"

definition rm_step ::
  "('w, 'r, 'f) os_iface \<Rightarrow> pystr \<Rightarrow> 'w \<Rightarrow> (exn + StepExecutionResult) \<times> 'w" where
  "rm_step os path w =
     (case rmtree os path w of
        (Some e, w1) \<Rightarrow> except_Exception e w1
      | (None, w1) \<Rightarrow>
          (Inr \<lparr>return_code = EX_OK,
                stdout = ''removed '' @ encode_utf8_ignore path,
                stderr = []\<rparr>, w1))"

text \<open>
  The closure of \<open>cmd\<close> has no \<open>try\<close>. An empty \<open>cwd\<close> is replaced by \<open>os.getcwd()\<close>
  before the process is run, and the assignment stays in the closure.
\<close>

definition cmd_step ::
  "('w, 'r, 'f) os_iface \<Rightarrow> pystr list \<Rightarrow> pystr \<Rightarrow> 'w
     \<Rightarrow> (exn + StepExecutionResult) \<times> step \<times> 'w" where
  "cmd_step os cmd cwd w =
     (case (if cwd = [] then getcwd os w else Inr cwd) of
        Inl e \<Rightarrow> (Inl e, Cmd cmd cwd, w)
      | Inr cwd' \<Rightarrow>
          (case subprocess_run os cmd cwd' w of
             (Inl e, w1) \<Rightarrow> (Inl e, Cmd cmd cwd', w1)
           | (Inr p, w1) \<Rightarrow>
               (Inr \<lparr>return_code = returncode p, stdout = proc_stdout p,
                     stderr = proc_stderr p\<rparr>, Cmd cmd cwd', w1)))"

fun step_call ::
  "('w, 'r, 'f) os_iface \<Rightarrow> step \<Rightarrow> 'w \<Rightarrow> (exn + StepExecutionResult) \<times> step \<times> 'w" where
  "step_call os (Download url path) w =
     (case download_step os url path w of (res, w') \<Rightarrow> (res, Download url path, w'))"
| "step_call os (Extract src dest overwrite extract_all keep) w =
     (case extract_step os src dest overwrite extract_all keep w of
        (res, w') \<Rightarrow> (res, Extract src dest overwrite extract_all keep, w'))"
| "step_call os (Rm path) w =
     (case rm_step os path w of (res, w') \<Rightarrow> (res, Rm path, w'))"
| "step_call os (Cmd cmd cwd) w = cmd_step os cmd cwd w"

section \<open>Hooks, Builders and the object store\<close>

text \<open>
  \<open>Hook\<close> and \<open>Builder\<close> are mutable objects held by reference: a Builder's
  \<open>_current_hook\<close> is the same object as one of its four hook fields, and a Recipe
  receives the Builder's Hook objects. The state therefore has a store for each class, a
  list indexed by address; a new object goes to the end, so its address is fresh. A
  reference is a \<open>nat\<close>, an \<open>Optional\<close> field that is \<open>None\<close> is \<open>None\<close>.
\<close>

record Hook =
  steps :: "step list"
  hook_description :: "pystr option"

record Builder =
  name :: pystr
  description :: "pystr option"
  current_hook :: "nat option"
  install_hook :: "nat option"
  uninstall_hook :: "nat option"
  update_hook :: "nat option"
  is_updated_hook :: "nat option"

record Recipe =
  recipe_name :: pystr
  recipe_description :: "pystr option"
  recipe_install_hook :: "nat option"
  recipe_uninstall_hook :: "nat option"
  recipe_update_hook :: "nat option"
  recipe_is_updated_hook :: "nat option"

record 'w state =
  builders :: "Builder list"
  hooks :: "Hook list"
  world :: 'w

subsection \<open>Hook.__call__\<close>

text \<open>
  The \<open>for\<close> loop of \<open>Hook.__call__\<close> over the remaining steps, with the list \<open>r\<close>
  built so far. A step that raises ends the loop with its exception. The closures come
  back as the calls left them. Every caller in the repository invokes a hook without
  arguments, and the four closures take none, so \<open>*args, **kwargs\<close> are empty.
\<close>

fun call_loop ::
  "('w, 'r, 'f) os_iface \<Rightarrow> step list \<Rightarrow> StepExecutionResult list \<Rightarrow> 'w
     \<Rightarrow> (exn + StepExecutionResult list) \<times> step list \<times> 'w" where
  "call_loop os [] r w = (Inr r, [], w)"
| "call_loop os (st # rest) r w =
     (case step_call os st w of
        (Inl e, st', w') \<Rightarrow> (Inl e, st' # rest, w')
      | (Inr x, st', w') \<Rightarrow>
          (case call_loop os rest (r @ [x]) w' of
             (res, rest', w'') \<Rightarrow> (res, st' # rest', w'')))"

definition Hook_call ::
  "('w, 'r, 'f) os_iface \<Rightarrow> nat \<Rightarrow> 'w state \<Rightarrow> (exn + StepExecutionResult list) \<times> 'w state" where
  "Hook_call os self s =
     (case call_loop os (steps (hooks s ! self)) [] (world s) of
        (res, steps', w') \<Rightarrow>
          (res, s\<lparr>hooks := (hooks s)[self := (hooks s ! self)\<lparr>steps := steps'\<rparr>], world := w'\<rparr>))"

subsection \<open>Builder\<close>

text \<open>\<open>recipe(name, description)\<close> returns a new Builder.\<close>

definition recipe :: "pystr \<Rightarrow> pystr \<Rightarrow> 'w state \<Rightarrow> nat \<times> 'w state" where
  "recipe nm descr s =
     (length (builders s),
      s\<lparr>builders := builders s @
         [\<lparr>name = nm, description = Some descr, current_hook = None, install_hook = None,
           uninstall_hook = None, update_hook = None, is_updated_hook = None\<rparr>]\<rparr>)"

text \<open>
  \<open>Builder._check_current_hook\<close>. A Hook defines neither \<open>__bool__\<close> nor \<open>__len__\<close>,
  so \<open>not self._current_hook\<close> holds exactly when the field is \<open>None\<close>.
\<close>

definition check_current_hook :: "nat \<Rightarrow> 'w state \<Rightarrow> exn + unit" where
  "check_current_hook self s =
     (case current_hook (builders s ! self) of
        None \<Rightarrow> Inl (CurrentHooksNotSet (str_of ''No hook set for '' @ name (builders s ! self)))
      | Some h \<Rightarrow> Inr ())"

text \<open>\<open>self._current_hook.steps.append(step_)\<close>\<close>

definition current_hook_steps_append :: "step \<Rightarrow> nat \<Rightarrow> 'w state \<Rightarrow> 'w state" where
  "current_hook_steps_append st self s =
     (case current_hook (builders s ! self) of
        None \<Rightarrow> s
      | Some h \<Rightarrow> s\<lparr>hooks := (hooks s)[h := (hooks s ! h)\<lparr>steps := steps (hooks s ! h) @ [st]\<rparr>]\<rparr>)"

definition Builder_download :: "pystr \<Rightarrow> pystr \<Rightarrow> nat \<Rightarrow> 'w state \<Rightarrow> (exn + nat) \<times> 'w state" where
  "Builder_download url path self s =
     (case check_current_hook self s of
        Inl e \<Rightarrow> (Inl e, s)
      | Inr u \<Rightarrow> (Inr self, current_hook_steps_append (Download url path) self s))"

definition Builder_extract ::
  "pystr \<Rightarrow> pystr option \<Rightarrow> bool \<Rightarrow> bool \<Rightarrow> bool \<Rightarrow> nat \<Rightarrow> 'w state \<Rightarrow> (exn + nat) \<times> 'w state" where
  "Builder_extract src dest overwrite extract_all keep_intermediate self s =
     (case check_current_hook self s of
        Inl e \<Rightarrow> (Inl e, s)
      | Inr u \<Rightarrow>
          (Inr self,
           current_hook_steps_append (Extract src dest overwrite extract_all keep_intermediate) self s))"

definition Builder_rm :: "pystr \<Rightarrow> nat \<Rightarrow> 'w state \<Rightarrow> (exn + nat) \<times> 'w state" where
  "Builder_rm path self s =
     (case check_current_hook self s of
        Inl e \<Rightarrow> (Inl e, s)
      | Inr u \<Rightarrow> (Inr self, current_hook_steps_append (Rm path) self s))"

definition Builder_cmd :: "pystr list \<Rightarrow> pystr \<Rightarrow> nat \<Rightarrow> 'w state \<Rightarrow> (exn + nat) \<times> 'w state" where
  "Builder_cmd args cwd self s =
     (case check_current_hook self s of
        Inl e \<Rightarrow> (Inl e, s)
      | Inr u \<Rightarrow> (Inr self, current_hook_steps_append (Cmd args cwd) self s))"

text \<open>
  The four selection methods. \<open>if not self.install_hook\<close> holds exactly when the field is
  \<open>None\<close>; the new Hook is stored at a fresh address.
\<close>

definition Builder_install :: "pystr \<Rightarrow> nat \<Rightarrow> 'w state \<Rightarrow> nat \<times> 'w state" where
  "Builder_install descr self s =
     (let s1 = (case install_hook (builders s ! self) of
                  None \<Rightarrow>
                    s\<lparr>hooks := hooks s @ [\<lparr>steps = [], hook_description = Some descr\<rparr>],
                      builders := (builders s)
                        [self := (builders s ! self)\<lparr>install_hook := Some (length (hooks s))\<rparr>]\<rparr>
                | Some h \<Rightarrow> s)
      in (self,
          s1\<lparr>builders := (builders s1)
               [self := (builders s1 ! self)
                  \<lparr>current_hook := install_hook (builders s1 ! self)\<rparr>]\<rparr>))"

definition Builder_uninstall :: "pystr \<Rightarrow> nat \<Rightarrow> 'w state \<Rightarrow> nat \<times> 'w state" where
  "Builder_uninstall descr self s =
     (let s1 = (case uninstall_hook (builders s ! self) of
                  None \<Rightarrow>
                    s\<lparr>hooks := hooks s @ [\<lparr>steps = [], hook_description = Some descr\<rparr>],
                      builders := (builders s)
                        [self := (builders s ! self)\<lparr>uninstall_hook := Some (length (hooks s))\<rparr>]\<rparr>
                | Some h \<Rightarrow> s)
      in (self,
          s1\<lparr>builders := (builders s1)
               [self := (builders s1 ! self)
                  \<lparr>current_hook := uninstall_hook (builders s1 ! self)\<rparr>]\<rparr>))"

definition Builder_update :: "pystr \<Rightarrow> nat \<Rightarrow> 'w state \<Rightarrow> nat \<times> 'w state" where
  "Builder_update descr self s =
     (let s1 = (case update_hook (builders s ! self) of
                  None \<Rightarrow>
                    s\<lparr>hooks := hooks s @ [\<lparr>steps = [], hook_description = Some descr\<rparr>],
                      builders := (builders s)
                        [self := (builders s ! self)\<lparr>update_hook := Some (length (hooks s))\<rparr>]\<rparr>
                | Some h \<Rightarrow> s)
      in (self,
          s1\<lparr>builders := (builders s1)
               [self := (builders s1 ! self)
                  \<lparr>current_hook := update_hook (builders s1 ! self)\<rparr>]\<rparr>))"

definition Builder_is_updated :: "pystr \<Rightarrow> nat \<Rightarrow> 'w state \<Rightarrow> nat \<times> 'w state" where
  "Builder_is_updated descr self s =
     (let s1 = (case is_updated_hook (builders s ! self) of
                  None \<Rightarrow>
                    s\<lparr>hooks := hooks s @ [\<lparr>steps = [], hook_description = Some descr\<rparr>],
                      builders := (builders s)
                        [self := (builders s ! self)\<lparr>is_updated_hook := Some (length (hooks s))\<rparr>]\<rparr>
                | Some h \<Rightarrow> s)
      in (self,
          s1\<lparr>builders := (builders s1)
               [self := (builders s1 ! self)
                  \<lparr>current_hook := is_updated_hook (builders s1 ! self)\<rparr>]\<rparr>))"

subsection \<open>Builder.to_recipe and Recipe\<close>

text \<open>
  \<open>os.environ.get("DEVM_DEBUG")\<close> is tested for truth: the override is in force when
  the variable is set to a non-empty string.
\<close>

definition debug_override :: "('w, 'r, 'f) os_iface \<Rightarrow> 'w \<Rightarrow> bool" where
  "debug_override os w =
     (case environ_get os (str_of ''DEVM_DEBUG'') w of
        None \<Rightarrow> False
      | Some v \<Rightarrow> v \<noteq> [])"

text \<open>
  The message of \<open>HooksMissing\<close> formats the two hook fields. The \<open>repr\<close> of a Hook
  prints the memory addresses of its closures, so it is a parameter \<open>fmt\<close>.
\<close>

definition format_hook_field :: "(Hook \<Rightarrow> pystr) \<Rightarrow> 'w state \<Rightarrow> nat option \<Rightarrow> pystr" where
  "format_hook_field fmt s field =
     (case field of
        None \<Rightarrow> str_of ''None''
      | Some h \<Rightarrow> fmt (hooks s ! h))"

definition HooksMissing_msg :: "(Hook \<Rightarrow> pystr) \<Rightarrow> 'w state \<Rightarrow> Builder \<Rightarrow> pystr" where
  "HooksMissing_msg fmt s b =
     str_of ''One of the required hooks are none:'' @ [10] @
     str_of ''self.install_hook: '' @ format_hook_field fmt s (install_hook b) @ [10] @
     str_of ''self.uninstall_hook: '' @ format_hook_field fmt s (uninstall_hook b) @ [10]"

text \<open>
  \<open>Recipe(name=..., install_hook=..., uninstall_hook=..., update_hook=..., is_updated_hook=...)\<close>:
  the call passes no \<open>description\<close>, so the field takes its default \<open>""\<close>.
\<close>

definition to_recipe ::
  "('w, 'r, 'f) os_iface \<Rightarrow> (Hook \<Rightarrow> pystr) \<Rightarrow> nat \<Rightarrow> 'w state \<Rightarrow> (exn + Recipe) \<times> 'w state" where
  "to_recipe os fmt self s =
     (let b = builders s ! self in
      if \<not> (install_hook b \<noteq> None \<and> uninstall_hook b \<noteq> None) \<and> \<not> debug_override os (world s)
      then (Inl (HooksMissing (HooksMissing_msg fmt s b)), s)
      else (Inr \<lparr>recipe_name = name b, recipe_description = Some [],
                 recipe_install_hook = install_hook b,
                 recipe_uninstall_hook = uninstall_hook b,
                 recipe_update_hook = update_hook b,
                 recipe_is_updated_hook = is_updated_hook b\<rparr>, s))"

text \<open>Calling a hook field that is \<open>None\<close> raises a TypeError.\<close>

definition NoneType_not_callable :: exn where
  "NoneType_not_callable =
     Exception (str_of (CHR 0x27 # ''NoneType'' @ CHR 0x27 # '' object is not callable''))"

definition call_hook_field ::
  "('w, 'r, 'f) os_iface \<Rightarrow> nat option \<Rightarrow> 'w state \<Rightarrow> (exn + StepExecutionResult list) \<times> 'w state" where
  "call_hook_field os field s =
     (case field of
        None \<Rightarrow> (Inl NoneType_not_callable, s)
      | Some h \<Rightarrow> Hook_call os h s)"

definition Recipe_install ::
  "('w, 'r, 'f) os_iface \<Rightarrow> Recipe \<Rightarrow> 'w state \<Rightarrow> (exn + StepExecutionResult list) \<times> 'w state" where
  "Recipe_install os self s =
     call_hook_field os (recipe_install_hook self)
       (s\<lparr>world := print_line os (str_of ''[*] Installing '' @ recipe_name self) (world s)\<rparr>)"

definition Recipe_update ::
  "('w, 'r, 'f) os_iface \<Rightarrow> Recipe \<Rightarrow> 'w state \<Rightarrow> (exn + StepExecutionResult list) \<times> 'w state" where
  "Recipe_update os self s =
     call_hook_field os (recipe_update_hook self)
       (s\<lparr>world := print_line os (str_of ''[*] Updating '' @ recipe_name self) (world s)\<rparr>)"

definition Recipe_uninstall ::
  "('w, 'r, 'f) os_iface \<Rightarrow> Recipe \<Rightarrow> 'w state \<Rightarrow> (exn + StepExecutionResult list) \<times> 'w state" where
  "Recipe_uninstall os self s =
     call_hook_field os (recipe_uninstall_hook self)
       (s\<lparr>world := print_line os (str_of ''[*] Uninstalling '' @ recipe_name self) (world s)\<rparr>)"

text \<open>\<open>all((r.return_code == 0 for r in self.is_updated_hook()))\<close>\<close>

definition Recipe_is_updated ::
  "('w, 'r, 'f) os_iface \<Rightarrow> Recipe \<Rightarrow> 'w state \<Rightarrow> (exn + bool) \<times> 'w state" where
  "Recipe_is_updated os self s =
     (case call_hook_field os (recipe_is_updated_hook self) s of
        (Inl e, s') \<Rightarrow> (Inl e, s')
      | (Inr rs, s') \<Rightarrow> (Inr (list_all (\<lambda>r. return_code r = 0) rs), s'))"

section \<open>Vocabulary of the properties\<close>

text \<open>
  The world in which the \<open>i\<close>-th step of a hook is called: the world the calls of the
  steps before it have left, whatever they returned or raised.
\<close>

fun world_before :: "('w, 'r, 'f) os_iface \<Rightarrow> step list \<Rightarrow> 'w \<Rightarrow> nat \<Rightarrow> 'w" where
  "world_before os [] w i = w"
| "world_before os (st # rest) w 0 = w"
| "world_before os (st # rest) w (Suc i) = world_before os rest (snd (snd (step_call os st w))) i"

text \<open>The four hook kinds, their selection method and their field of the Builder.\<close>

datatype hook_kind = Install | Uninstall | Update | IsUpdated

fun select_hook :: "hook_kind \<Rightarrow> pystr \<Rightarrow> nat \<Rightarrow> 'w state \<Rightarrow> nat \<times> 'w state" where
  "select_hook Install = Builder_install"
| "select_hook Uninstall = Builder_uninstall"
| "select_hook Update = Builder_update"
| "select_hook IsUpdated = Builder_is_updated"

fun hook_field :: "hook_kind \<Rightarrow> Builder \<Rightarrow> nat option" where
  "hook_field Install = install_hook"
| "hook_field Uninstall = uninstall_hook"
| "hook_field Update = update_hook"
| "hook_field IsUpdated = is_updated_hook"

text \<open>
  A step constructor call, named by the closure it appends, and a chain of calls on a
  Builder, \<open>b.install().download(...).rm(...)...\<close>: each call is made on the Builder
  the call before it returned, and the chain ends at the first call that raises.
\<close>

fun add_step :: "step \<Rightarrow> nat \<Rightarrow> 'w state \<Rightarrow> (exn + nat) \<times> 'w state" where
  "add_step (Download url path) = Builder_download url path"
| "add_step (Extract src dest overwrite extract_all keep) =
     Builder_extract src dest overwrite extract_all keep"
| "add_step (Rm path) = Builder_rm path"
| "add_step (Cmd args cwd) = Builder_cmd args cwd"

datatype builder_op = Select hook_kind pystr | Add step

fun apply_op :: "builder_op \<Rightarrow> nat \<Rightarrow> 'w state \<Rightarrow> (exn + nat) \<times> 'w state" where
  "apply_op (Select k descr) self s =
     (case select_hook k descr self s of (self', s') \<Rightarrow> (Inr self', s'))"
| "apply_op (Add st) self s = add_step st self s"

fun chain :: "builder_op list \<Rightarrow> nat \<Rightarrow> 'w state \<Rightarrow> (exn + nat) \<times> 'w state" where
  "chain [] self s = (Inr self, s)"
| "chain (op # ops) self s =
     (case apply_op op self s of
        (Inl e, s') \<Rightarrow> (Inl e, s')
      | (Inr self', s') \<Rightarrow> chain ops self' s')"

text \<open>
  The references of a Builder point into the store (in Python a reference always
  points to an object).
\<close>

definition valid_builder :: "nat \<Rightarrow> 'w state \<Rightarrow> bool" where
  "valid_builder self s \<longleftrightarrow>
     self < length (builders s) \<and>
     (\<forall>h. current_hook (builders s ! self) = Some h \<longrightarrow> h < length (hooks s)) \<and>
     (\<forall>k h. hook_field k (builders s ! self) = Some h \<longrightarrow> h < length (hooks s))"

text \<open>
  What a call of a command closure does when its process is run in the directory \<open>d\<close>:
  the outcome of the process, and the closure with \<open>d\<close> as its \<open>cwd\<close>.
\<close>

definition run_in_dir ::
  "('w, 'r, 'f) os_iface \<Rightarrow> pystr list \<Rightarrow> pystr \<Rightarrow> 'w
     \<Rightarrow> (exn + StepExecutionResult) \<times> step \<times> 'w" where
  "run_in_dir os args d w =
     (case subprocess_run os args d w of
        (Inl e, w') \<Rightarrow> (Inl e, Cmd args d, w')
      | (Inr p, w') \<Rightarrow>
          (Inr \<lparr>return_code = returncode p, stdout = proc_stdout p, stderr = proc_stderr p\<rparr>,
           Cmd args d, w'))"

section \<open>A small concrete world\<close>

text \<open>
  A world to evaluate the model on: the working directory, the paths that exist and
  the environment. One URL answers, an existing path can be extracted and removed,
  \<open>pwd\<close> prints its working directory, \<open>sh -c "exit 7"\<close> exits with 7, and no other
  executable exists.
\<close>

record demo_world =
  demo_cwd :: pystr
  demo_files :: "pystr list"
  demo_env :: "(pystr \<times> pystr) list"

definition demo_os :: "(demo_world, unit, pystr) os_iface" where
  "demo_os =
     \<lparr>requests_get = (\<lambda>url w.
        if url = str_of ''http://ok'' then (Inr (), w)
        else (Inl (Exception (str_of ''Connection refused'')), w)),
      open_wb = (\<lambda>path w. (Inr path, w\<lparr>demo_files := path # demo_files w\<rparr>)),
      copyfileobj = (\<lambda>r f w. (None, w)),
      file_close = (\<lambda>f w. (None, w)),
      xtract = (\<lambda>src dest overwrite extract_all keep w.
        if src \<in> set (demo_files w) then (None, w)
        else (Some (Exception (str_of ''No such archive'')), w)),
      rmtree = (\<lambda>path w.
        if path \<in> set (demo_files w) then (None, w\<lparr>demo_files := removeAll path (demo_files w)\<rparr>)
        else (Some (Exception (str_of ''No such file or directory'')), w)),
      getcwd = (\<lambda>w. Inr (demo_cwd w)),
      subprocess_run = (\<lambda>args cwd w.
        if args = [str_of ''pwd''] then
          (Inr \<lparr>returncode = 0, proc_stdout = encode_utf8_ignore cwd, proc_stderr = []\<rparr>, w)
        else if args = [str_of ''sh'', str_of ''-c'', str_of ''exit 7''] then
          (Inr \<lparr>returncode = 7, proc_stdout = [], proc_stderr = []\<rparr>, w)
        else (Inl (Exception (str_of ''No such file or directory'')), w)),
      environ_get = (\<lambda>k w. map_of (demo_env w) k),
      print_line = (\<lambda>line w. w)\<rparr>"

definition demo_world0 :: demo_world where
  "demo_world0 = \<lparr>demo_cwd = str_of ''/a'', demo_files = [str_of ''t.zip''], demo_env = []\<rparr>"

definition demo_state0 :: "demo_world state" where
  "demo_state0 = \<lparr>builders = [], hooks = [], world = demo_world0\<rparr>"

definition demo_fmt :: "Hook \<Rightarrow> pystr" where
  "demo_fmt h = str_of ''Hook''"

text \<open>A hook of three steps: a removal that fails, a command that exits with 7, a download.\<close>

definition demo_steps :: "step list" where
  "demo_steps =
     [Rm (str_of ''missing''),
      Cmd [str_of ''sh'', str_of ''-c'', str_of ''exit 7''] (str_of ''/''),
      Download (str_of ''http://ok'') (str_of ''f'')]"

definition demo_hook_state :: "demo_world state" where
  "demo_hook_state =
     \<lparr>builders = [], hooks = [\<lparr>steps = demo_steps, hook_description = None\<rparr>], world = demo_world0\<rparr>"

text \<open>A Recipe whose hooks are the Hook at address 0, and a state whose Hook has no steps.\<close>

definition demo_recipe :: Recipe where
  "demo_recipe =
     \<lparr>recipe_name = str_of ''tool'', recipe_description = Some [],
      recipe_install_hook = Some 0, recipe_uninstall_hook = Some 0,
      recipe_update_hook = None, recipe_is_updated_hook = Some 0\<rparr>"

definition demo_empty_state :: "demo_world state" where
  "demo_empty_state =
     \<lparr>builders = [], hooks = [\<lparr>steps = [], hook_description = Some []\<rparr>], world = demo_world0\<rparr>"

text \<open>A hook whose second step runs an executable that does not exist.\<close>

definition demo_launch_state :: "demo_world state" where
  "demo_launch_state =
     \<lparr>builders = [],
      hooks = [\<lparr>steps = [Rm (str_of ''missing''), Cmd [str_of ''nonexistent''] [], Rm (str_of ''t.zip'')],
               hook_description = None\<rparr>],
      world = demo_world0\<rparr>"

text \<open>A hook whose second step runs \<open>pwd\<close> without a working directory.\<close>

definition demo_pwd_state :: "demo_world state" where
  "demo_pwd_state =
     \<lparr>builders = [],
      hooks = [\<lparr>steps = [Rm (str_of ''t.zip''), Cmd [str_of ''pwd''] []], hook_description = None\<rparr>],
      world = demo_world0\<rparr>"

text \<open>The example world with the debug variable set.\<close>

definition demo_debug_world :: demo_world where
  "demo_debug_world = demo_world0\<lparr>demo_env := [(str_of ''DEVM_DEBUG'', str_of ''1'')]\<rparr>"

text \<open>
  A Builder made by \<open>recipe\<close> on which install is selected, a step is added, uninstall is
  selected, a step is added, install is selected again and a step is added.
\<close>

definition demo_built0 :: "demo_world state" where
  "demo_built0 = snd (recipe (str_of ''tool'') [] demo_state0)"

definition demo_ops :: "builder_op list" where
  "demo_ops = [Add (Rm (str_of ''old'')), Select Uninstall [], Add (Rm (str_of ''tool''))]"

definition demo_built1 :: "demo_world state" where
  "demo_built1 = snd (select_hook Install (str_of ''first'') 0 demo_built0)"

definition demo_built2 :: "demo_world state" where
  "demo_built2 = snd (chain demo_ops 0 demo_built1)"

definition demo_built3 :: "demo_world state" where
  "demo_built3 = snd (select_hook Install (str_of ''second'') 0 demo_built2)"

definition demo_built4 :: "demo_world state" where
  "demo_built4 = snd (chain (map Add [Cmd [str_of ''pwd''] []]) 0 demo_built3)"

text \<open>
  The state after \<open>recipe("tool", "a tool").install().uninstall()\<close>.
\<close>

definition demo_described :: "demo_world state" where
  "demo_described =
     snd (Builder_uninstall [] 0 (snd (Builder_install [] 0
       (snd (recipe (str_of ''tool'') (str_of ''a tool'') demo_state0)))))"

section \<open>Basic facts\<close>

subsection \<open>Strings\<close>

lemma utf8_char_ascii: "(of_char c :: nat) < 0x80 \<Longrightarrow> utf8_char (of_char c) = [c]"
  by (simp add: utf8_char_def)

lemma encode_str_of:
  "list_all (\<lambda>c. (of_char c :: nat) < 0x80) cs \<Longrightarrow> encode_utf8_ignore (str_of cs) = cs"
  by (induction cs) (simp_all add: encode_utf8_ignore_def str_of_def utf8_char_ascii)

lemma encode_append: "encode_utf8_ignore (a @ b) = encode_utf8_ignore a @ encode_utf8_ignore b"
  by (simp add: encode_utf8_ignore_def)

lemma str_of_eq_iff: "str_of a = str_of b \<longleftrightarrow> a = b"
  by (simp add: str_of_def inj_map_eq_map inj_on_def)

lemma str_of_Nil_iff: "str_of a = [] \<longleftrightarrow> a = []"
  by (simp add: str_of_def)

lemmas demo_simps = demo_os_def demo_world0_def demo_state0_def str_of_eq_iff str_of_Nil_iff
  encode_str_of EX_SOFTWARE_def EX_OK_def

subsection \<open>The loop of Hook.__call__\<close>

text \<open>
  When every step returns at its turn, the loop returns the results so far followed by
  one result for each step, in the order of the steps.
\<close>

lemma call_loop_returns:
  assumes "\<forall>i<length ss. \<exists>x. fst (step_call os (ss ! i) (world_before os ss w i)) = Inr x"
  shows "\<exists>rs ss'. call_loop os ss r w = (Inr (r @ rs), ss', world_before os ss w (length ss)) \<and>
           length rs = length ss \<and> length ss' = length ss \<and>
           (\<forall>i<length ss. fst (step_call os (ss ! i) (world_before os ss w i)) = Inr (rs ! i))"
  using assms
proof (induction ss arbitrary: r w)
  case Nil
  then show ?case by simp
next
  case (Cons st rest)
  from Cons.prems have "\<exists>x. fst (step_call os st w) = Inr x"
    by auto
  then obtain x st' w1 where st: "step_call os st w = (Inr x, st', w1)"
    by (metis fst_conv prod_cases3)
  have "\<forall>i<length rest. \<exists>y. fst (step_call os (rest ! i) (world_before os rest w1 i)) = Inr y"
  proof (intro allI impI)
    fix i assume "i < length rest"
    then have "Suc i < length (st # rest)" by simp
    with Cons.prems have "\<exists>y. fst (step_call os ((st # rest) ! Suc i)
        (world_before os (st # rest) w (Suc i))) = Inr y"
      by blast
    then show "\<exists>y. fst (step_call os (rest ! i) (world_before os rest w1 i)) = Inr y"
      by (simp add: st)
  qed
  from Cons.IH [OF this, of "r @ [x]"] obtain rs ss' where
    loop: "call_loop os rest (r @ [x]) w1 = (Inr ((r @ [x]) @ rs), ss', world_before os rest w1 (length rest))"
    and len: "length rs = length rest" "length ss' = length rest"
    and nth: "\<forall>i<length rest. fst (step_call os (rest ! i) (world_before os rest w1 i)) = Inr (rs ! i)"
    by blast
  have "call_loop os (st # rest) r w =
          (Inr (r @ x # rs), st' # ss', world_before os (st # rest) w (length (st # rest)))"
    by (simp add: st loop)
  moreover have "\<forall>i<length (st # rest).
      fst (step_call os ((st # rest) ! i) (world_before os (st # rest) w i)) = Inr ((x # rs) ! i)"
  proof (intro allI impI)
    fix i assume "i < length (st # rest)"
    then show "fst (step_call os ((st # rest) ! i) (world_before os (st # rest) w i)) = Inr ((x # rs) ! i)"
      using nth by (cases i) (simp_all add: st)
  qed
  ultimately show ?case
    using len by (intro exI [of _ "x # rs"] exI [of _ "st' # ss'"]) simp
qed

text \<open>The first step that raises ends the loop with its exception.\<close>

lemma call_loop_raises:
  assumes "i < length ss"
    and "\<forall>j<i. \<exists>x. fst (step_call os (ss ! j) (world_before os ss w j)) = Inr x"
    and "fst (step_call os (ss ! i) (world_before os ss w i)) = Inl e"
  shows "fst (call_loop os ss r w) = Inl e"
  using assms
proof (induction ss arbitrary: i r w)
  case Nil
  then show ?case by simp
next
  case (Cons st rest)
  show ?case
  proof (cases i)
    case 0
    with Cons.prems(3) show ?thesis
      by (cases "step_call os st w") (auto split: sum.splits)
  next
    case (Suc k)
    with Cons.prems(2) have "\<exists>x. fst (step_call os st w) = Inr x"
      by fastforce
    then obtain x st' w1 where st: "step_call os st w = (Inr x, st', w1)"
      by (metis fst_conv prod_cases3)
    have k: "k < length rest"
      using Cons.prems(1) Suc by simp
    have before: "\<forall>j<k. \<exists>y. fst (step_call os (rest ! j) (world_before os rest w1 j)) = Inr y"
    proof (intro allI impI)
      fix j assume "j < k"
      then have "Suc j < i" using Suc by simp
      with Cons.prems(2) have "\<exists>y. fst (step_call os ((st # rest) ! Suc j)
          (world_before os (st # rest) w (Suc j))) = Inr y"
        by blast
      then show "\<exists>y. fst (step_call os (rest ! j) (world_before os rest w1 j)) = Inr y"
        by (simp add: st)
    qed
    have "fst (step_call os (rest ! k) (world_before os rest w1 k)) = Inl e"
      using Cons.prems(3) Suc by (simp add: st)
    from Cons.IH [OF k before this, of "r @ [x]"] show ?thesis
      by (auto simp: st split: prod.splits)
  qed
qed

section \<open>Hook invocation\<close>

text \<open>
  C1, as stated, fails on a Hook with a step that raises: the example hook has three
  steps, its second step runs an executable that does not exist, the invocation raises
  the launch error instead of returning three results, and the third step, which would
  remove \<open>t.zip\<close>, is not executed.
\<close>

theorem Hook_call_raising_step_counterexample:
  "length (steps (hooks demo_launch_state ! 0)) = 3 \<and>
   fst (Hook_call demo_os 0 demo_launch_state) =
     Inl (Exception (str_of ''No such file or directory'')) \<and>
   demo_files (world (snd (Hook_call demo_os 0 demo_launch_state))) = [str_of ''t.zip'']"
  by (simp add: Hook_call_def demo_launch_state_def rm_step_def cmd_step_def demo_simps)

text \<open>
  C1, amended: For a Hook with N steps whose steps all return a StepExecutionResult when
  called at their turn, invoking the Hook returns a list of exactly N results; the
  \<open>i\<close>-th result is the one the \<open>i\<close>-th appended step returned, called in the world its
  predecessors left, and the world after the invocation is the one the last step left.
  Nothing depends on the status of any result, so a non-zero status stops nothing.
\<close>

theorem Hook_call_returns_all_results:
  assumes "\<forall>i<length (steps (hooks s ! h)). \<exists>x.
      fst (step_call os (steps (hooks s ! h) ! i)
             (world_before os (steps (hooks s ! h)) (world s) i)) = Inr x"
  shows "\<exists>rs s'. Hook_call os h s = (Inr rs, s') \<and>
      length rs = length (steps (hooks s ! h)) \<and>
      (\<forall>i<length (steps (hooks s ! h)).
         fst (step_call os (steps (hooks s ! h) ! i)
                (world_before os (steps (hooks s ! h)) (world s) i)) = Inr (rs ! i)) \<and>
      world s' = world_before os (steps (hooks s ! h)) (world s) (length (steps (hooks s ! h)))"
proof -
  from call_loop_returns [OF assms, of "[]"] obtain rs ss' where
    "call_loop os (steps (hooks s ! h)) [] (world s) =
       (Inr rs, ss', world_before os (steps (hooks s ! h)) (world s) (length (steps (hooks s ! h))))"
    and "length rs = length (steps (hooks s ! h))"
    and "\<forall>i<length (steps (hooks s ! h)).
         fst (step_call os (steps (hooks s ! h) ! i)
                (world_before os (steps (hooks s ! h)) (world s) i)) = Inr (rs ! i)"
    by auto
  then show ?thesis
    by (simp add: Hook_call_def)
qed

text \<open>The three steps of the example hook, each at its turn.\<close>

lemma demo_steps_results:
  "fst (step_call demo_os (demo_steps ! 0) (world_before demo_os demo_steps demo_world0 0)) =
     Inr \<lparr>return_code = 70, stdout = [], stderr = ''No such file or directory''\<rparr>"
  "fst (step_call demo_os (demo_steps ! Suc 0) (world_before demo_os demo_steps demo_world0 (Suc 0))) =
     Inr \<lparr>return_code = 7, stdout = [], stderr = []\<rparr>"
  "fst (step_call demo_os (demo_steps ! Suc (Suc 0))
      (world_before demo_os demo_steps demo_world0 (Suc (Suc 0)))) =
     Inr \<lparr>return_code = 0, stdout = ''downloaded to f'', stderr = []\<rparr>"
  by (simp_all add: demo_steps_def rm_step_def cmd_step_def download_step_def with_exit_def demo_simps)

text \<open>
  On the example hook the first step fails with the internal-failure code, the second
  exits with 7, and the third still runs and succeeds.
\<close>

theorem Hook_call_returns_all_results_witness:
  "\<exists>rs s'. Hook_call demo_os 0 demo_hook_state = (Inr rs, s') \<and> length rs = 3 \<and>
     map return_code rs = [70, 7, 0]"
proof -
  have len: "length demo_steps = Suc (Suc (Suc 0))"
    by (simp add: demo_steps_def)
  have st: "steps (hooks demo_hook_state ! 0) = demo_steps" "world demo_hook_state = demo_world0"
    by (simp_all add: demo_hook_state_def)
  have hyp: "\<forall>i<length (steps (hooks demo_hook_state ! 0)). \<exists>x.
      fst (step_call demo_os (steps (hooks demo_hook_state ! 0) ! i)
             (world_before demo_os (steps (hooks demo_hook_state ! 0)) (world demo_hook_state) i)) = Inr x"
    unfolding st len by (simp add: All_less_Suc demo_steps_results)
  from Hook_call_returns_all_results [OF hyp] obtain rs s' where
    call: "Hook_call demo_os 0 demo_hook_state = (Inr rs, s')"
    and n: "length rs = Suc (Suc (Suc 0))"
    and nth: "\<forall>i<Suc (Suc (Suc 0)).
         fst (step_call demo_os (demo_steps ! i) (world_before demo_os demo_steps demo_world0 i)) =
         Inr (rs ! i)"
    unfolding st len by blast
  from nth have "Inr (rs ! 0) =
      fst (step_call demo_os (demo_steps ! 0) (world_before demo_os demo_steps demo_world0 0))"
    and "Inr (rs ! Suc 0) =
      fst (step_call demo_os (demo_steps ! Suc 0) (world_before demo_os demo_steps demo_world0 (Suc 0)))"
    and "Inr (rs ! Suc (Suc 0)) =
      fst (step_call demo_os (demo_steps ! Suc (Suc 0))
        (world_before demo_os demo_steps demo_world0 (Suc (Suc 0))))"
    by simp_all
  then have "return_code (rs ! 0) = 70" "return_code (rs ! Suc 0) = 7"
    "return_code (rs ! Suc (Suc 0)) = 0"
    unfolding demo_steps_results by simp_all
  with n have "map return_code rs = [70, 7, 0]"
    by (cases rs; cases "tl rs"; cases "tl (tl rs)") auto
  with call n show ?thesis
    by (auto simp: numeral_3_eq_3)
qed

section \<open>Recipe.is_updated\<close>

text \<open>
  C6: When the is-updated hook is present and its invocation returns the results
  \<open>rs\<close>, \<open>Recipe.is_updated()\<close> returns true if and only if every result in \<open>rs\<close>
  has the success status code; one result with a non-zero status, wherever it is in the
  sequence, makes it return false.
\<close>

theorem Recipe_is_updated_all_success:
  assumes "recipe_is_updated_hook r = Some h"
    and "Hook_call os h s = (Inr rs, s')"
  shows "\<exists>b. Recipe_is_updated os r s = (Inr b, s') \<and>
           (b \<longleftrightarrow> (\<forall>x \<in> set rs. return_code x = EX_OK)) \<and>
           ((\<exists>x \<in> set rs. return_code x \<noteq> 0) \<longrightarrow> \<not> b)"
  using assms
  by (auto simp: Recipe_is_updated_def call_hook_field_def list_all_iff EX_OK_def)

text \<open>The example hook returns the statuses 70, 7 and 0.\<close>

lemma demo_hook_call:
  "fst (Hook_call demo_os 0 demo_hook_state) =
     Inr [\<lparr>return_code = 70, stdout = [], stderr = ''No such file or directory''\<rparr>,
          \<lparr>return_code = 7, stdout = [], stderr = []\<rparr>,
          \<lparr>return_code = 0, stdout = ''downloaded to f'', stderr = []\<rparr>]"
  by (simp add: Hook_call_def demo_hook_state_def demo_steps_def rm_step_def cmd_step_def
      download_step_def with_exit_def demo_simps)

lemma demo_pwd_call:
  "fst (Hook_call demo_os 0 demo_pwd_state) =
     Inr [\<lparr>return_code = 0, stdout = ''removed t.zip'', stderr = []\<rparr>,
          \<lparr>return_code = 0, stdout = ''/a'', stderr = []\<rparr>]"
  by (simp add: Hook_call_def demo_pwd_state_def rm_step_def cmd_step_def demo_simps)

text \<open>Statuses 70, 7, 0 give false; statuses 0, 0 give true.\<close>

theorem Recipe_is_updated_all_success_witness:
  "fst (Recipe_is_updated demo_os demo_recipe demo_hook_state) = Inr False \<and>
   fst (Recipe_is_updated demo_os demo_recipe demo_pwd_state) = Inr True"
proof -
  have h: "recipe_is_updated_hook demo_recipe = Some 0"
    by (simp add: demo_recipe_def)
  obtain s' where call: "Hook_call demo_os 0 demo_hook_state =
     (Inr [\<lparr>return_code = 70, stdout = [], stderr = ''No such file or directory''\<rparr>,
          \<lparr>return_code = 7, stdout = [], stderr = []\<rparr>,
          \<lparr>return_code = 0, stdout = ''downloaded to f'', stderr = []\<rparr>], s')"
    using demo_hook_call by (cases "Hook_call demo_os 0 demo_hook_state") simp
  obtain t' where call': "Hook_call demo_os 0 demo_pwd_state =
     (Inr [\<lparr>return_code = 0, stdout = ''removed t.zip'', stderr = []\<rparr>,
          \<lparr>return_code = 0, stdout = ''/a'', stderr = []\<rparr>], t')"
    using demo_pwd_call by (cases "Hook_call demo_os 0 demo_pwd_state") simp
  from Recipe_is_updated_all_success [OF h call] Recipe_is_updated_all_success [OF h call']
  show ?thesis
    by (auto simp: EX_OK_def)
qed

text \<open>
  C10: When the is-updated hook is present and has no steps, its invocation returns the
  empty list and \<open>Recipe.is_updated()\<close> returns true.
\<close>

theorem Recipe_is_updated_empty_hook:
  assumes "recipe_is_updated_hook r = Some h"
    and "steps (hooks s ! h) = []"
  shows "fst (Hook_call os h s) = Inr [] \<and> fst (Recipe_is_updated os r s) = Inr True"
  using assms
  by (simp add: Recipe_is_updated_def call_hook_field_def Hook_call_def)

theorem Recipe_is_updated_empty_hook_witness:
  "fst (Hook_call demo_os 0 demo_empty_state) = Inr [] \<and>
   fst (Recipe_is_updated demo_os demo_recipe demo_empty_state) = Inr True"
proof -
  have "recipe_is_updated_hook demo_recipe = Some 0"
    by (simp add: demo_recipe_def)
  moreover have "steps (hooks demo_empty_state ! 0) = []"
    by (simp add: demo_empty_state_def)
  ultimately show ?thesis
    by (rule Recipe_is_updated_empty_hook)
qed

section \<open>The command step\<close>

text \<open>A step that raises at its turn makes the invocation of its Hook raise.\<close>

lemma Hook_call_raises:
  assumes "i < length (steps (hooks s ! h))"
    and "\<forall>j<i. \<exists>x. fst (step_call os (steps (hooks s ! h) ! j)
            (world_before os (steps (hooks s ! h)) (world s) j)) = Inr x"
    and "fst (step_call os (steps (hooks s ! h) ! i)
            (world_before os (steps (hooks s ! h)) (world s) i)) = Inl e"
  shows "fst (Hook_call os h s) = Inl e"
  using call_loop_raises [OF assms, of "[]"]
  by (auto simp: Hook_call_def split: prod.splits)

text \<open>
  C3: Let \<open>d\<close> be the directory a command step runs in (its \<open>cwd\<close>, or the current
  directory when \<open>cwd\<close> is empty). When the process is launched and completes, the step
  returns its exit code as the status, whatever the code is, with the captured stdout and
  stderr. When the launch raises, the step raises the same exception, and so does the
  invocation of a Hook in which the steps before it returned.
\<close>

theorem cmd_step_exit_code_and_launch_failure:
  fixes os :: "('w, 'r, 'f) os_iface"
  assumes "(if cwd = [] then getcwd os w else Inr cwd) = Inr d"
  shows "(\<forall>p w1. subprocess_run os args d w = (Inr p, w1) \<longrightarrow>
            step_call os (Cmd args cwd) w =
              (Inr \<lparr>return_code = returncode p, stdout = proc_stdout p, stderr = proc_stderr p\<rparr>,
               Cmd args d, w1)) \<and>
         (\<forall>e w1. subprocess_run os args d w = (Inl e, w1) \<longrightarrow>
            step_call os (Cmd args cwd) w = (Inl e, Cmd args d, w1) \<and>
            (\<forall>(s :: 'w state) h i. i < length (steps (hooks s ! h)) \<and>
               steps (hooks s ! h) ! i = Cmd args cwd \<and>
               world_before os (steps (hooks s ! h)) (world s) i = w \<and>
               (\<forall>j<i. \<exists>x. fst (step_call os (steps (hooks s ! h) ! j)
                   (world_before os (steps (hooks s ! h)) (world s) j)) = Inr x) \<longrightarrow>
               fst (Hook_call os h s) = Inl e))"
proof (intro conjI allI impI)
  fix p w1 assume "subprocess_run os args d w = (Inr p, w1)"
  with assms show "step_call os (Cmd args cwd) w =
      (Inr \<lparr>return_code = returncode p, stdout = proc_stdout p, stderr = proc_stderr p\<rparr>,
       Cmd args d, w1)"
    by (simp add: cmd_step_def)
next
  fix e w1 assume "subprocess_run os args d w = (Inl e, w1)"
  with assms show "step_call os (Cmd args cwd) w = (Inl e, Cmd args d, w1)"
    by (simp add: cmd_step_def)
next
  fix e w1 and s :: "'w state" and h i
  assume run: "subprocess_run os args d w = (Inl e, w1)"
    and hook: "i < length (steps (hooks s ! h)) \<and>
               steps (hooks s ! h) ! i = Cmd args cwd \<and>
               world_before os (steps (hooks s ! h)) (world s) i = w \<and>
               (\<forall>j<i. \<exists>x. fst (step_call os (steps (hooks s ! h) ! j)
                   (world_before os (steps (hooks s ! h)) (world s) j)) = Inr x)"
  from assms run have "fst (step_call os (Cmd args cwd) w) = Inl e"
    by (simp add: cmd_step_def)
  with hook show "fst (Hook_call os h s) = Inl e"
    by (intro Hook_call_raises [of i]) simp_all
qed

theorem cmd_step_exit_code_and_launch_failure_witness:
  "step_call demo_os (Cmd [str_of ''sh'', str_of ''-c'', str_of ''exit 7''] []) demo_world0 =
     (Inr \<lparr>return_code = 7, stdout = [], stderr = []\<rparr>,
      Cmd [str_of ''sh'', str_of ''-c'', str_of ''exit 7''] (str_of ''/a''), demo_world0) \<and>
   fst (Hook_call demo_os 0 demo_launch_state) = Inl (Exception (str_of ''No such file or directory''))"
proof -
  have dir: "(if ([]::pystr) = [] then getcwd demo_os demo_world0 else Inr []) = Inr (str_of ''/a'')"
    by (simp add: demo_simps)
  have run7: "subprocess_run demo_os [str_of ''sh'', str_of ''-c'', str_of ''exit 7''] (str_of ''/a'')
      demo_world0 = (Inr \<lparr>returncode = 7, proc_stdout = [], proc_stderr = []\<rparr>, demo_world0)"
    by (simp add: demo_simps)
  have launch: "subprocess_run demo_os [str_of ''nonexistent''] (str_of ''/a'') demo_world0 =
      (Inl (Exception (str_of ''No such file or directory'')), demo_world0)"
    by (simp add: demo_simps)
  have hook: "Suc 0 < length (steps (hooks demo_launch_state ! 0)) \<and>
      steps (hooks demo_launch_state ! 0) ! Suc 0 = Cmd [str_of ''nonexistent''] [] \<and>
      world_before demo_os (steps (hooks demo_launch_state ! 0)) (world demo_launch_state) (Suc 0) =
        demo_world0 \<and>
      (\<forall>j<Suc 0. \<exists>x. fst (step_call demo_os (steps (hooks demo_launch_state ! 0) ! j)
          (world_before demo_os (steps (hooks demo_launch_state ! 0)) (world demo_launch_state) j)) =
          Inr x)"
    by (simp add: demo_launch_state_def rm_step_def demo_simps)
  from cmd_step_exit_code_and_launch_failure [OF dir, of "[str_of ''sh'', str_of ''-c'', str_of ''exit 7'']"]
    run7
  have "step_call demo_os (Cmd [str_of ''sh'', str_of ''-c'', str_of ''exit 7''] []) demo_world0 =
     (Inr \<lparr>return_code = 7, stdout = [], stderr = []\<rparr>,
      Cmd [str_of ''sh'', str_of ''-c'', str_of ''exit 7''] (str_of ''/a''), demo_world0)"
    by simp
  moreover
  have "fst (Hook_call demo_os 0 demo_launch_state) = Inl (Exception (str_of ''No such file or directory''))"
    by (rule cmd_step_exit_code_and_launch_failure [OF dir, of "[str_of ''nonexistent'']",
          THEN conjunct2, rule_format, OF launch, THEN conjunct2, rule_format, OF hook])
  ultimately show ?thesis ..
qed

subsection \<open>The working directory of a command step\<close>

text \<open>
  After the invocation of a Hook, the closure of a step that was reached is the closure
  its call left.
\<close>

lemma call_loop_closure:
  assumes "i < length ss"
    and "\<forall>j<i. \<exists>x. fst (step_call os (ss ! j) (world_before os ss w j)) = Inr x"
  shows "fst (snd (call_loop os ss r w)) ! i =
           fst (snd (step_call os (ss ! i) (world_before os ss w i)))"
  using assms
proof (induction ss arbitrary: i r w)
  case Nil
  then show ?case by simp
next
  case (Cons st rest)
  show ?case
  proof (cases i)
    case 0
    then show ?thesis
      by (auto split: prod.splits sum.splits)
  next
    case (Suc k)
    with Cons.prems(2) have "\<exists>x. fst (step_call os st w) = Inr x"
      by fastforce
    then obtain x st' w1 where st: "step_call os st w = (Inr x, st', w1)"
      by (metis fst_conv prod_cases3)
    have k: "k < length rest"
      using Cons.prems(1) Suc by simp
    have before: "\<forall>j<k. \<exists>y. fst (step_call os (rest ! j) (world_before os rest w1 j)) = Inr y"
    proof (intro allI impI)
      fix j assume "j < k"
      then have "Suc j < i" using Suc by simp
      with Cons.prems(2) have "\<exists>y. fst (step_call os ((st # rest) ! Suc j)
          (world_before os (st # rest) w (Suc j))) = Inr y"
        by blast
      then show "\<exists>y. fst (step_call os (rest ! j) (world_before os rest w1 j)) = Inr y"
        by (simp add: st)
    qed
    from Cons.IH [OF k before, of "r @ [x]"] show ?thesis
      by (auto simp: st Suc split: prod.splits)
  qed
qed

lemma Hook_call_closure:
  assumes "h < length (hooks s)" "i < length (steps (hooks s ! h))"
    and "\<forall>j<i. \<exists>x. fst (step_call os (steps (hooks s ! h) ! j)
            (world_before os (steps (hooks s ! h)) (world s) j)) = Inr x"
  shows "steps (hooks (snd (Hook_call os h s)) ! h) ! i =
           fst (snd (step_call os (steps (hooks s ! h) ! i)
             (world_before os (steps (hooks s ! h)) (world s) i)))"
  using call_loop_closure [OF assms(2,3), of "[]"] assms(1)
  by (auto simp: Hook_call_def split: prod.splits)

text \<open>
  C9: A command step created with an empty \<open>cwd\<close>, first called when the current
  directory is \<open>d\<close>, runs its process in \<open>d\<close> and keeps \<open>d\<close> as its captured
  \<open>cwd\<close>, also in the Hook that holds it; called again in any world, whatever the
  current directory is then, it runs its process in \<open>d\<close>.
\<close>

theorem cmd_step_cwd_resolved_once:
  fixes os :: "('w, 'r, 'f) os_iface"
  assumes "getcwd os w1 = Inr d" and "d \<noteq> []"
  shows "step_call os (Cmd args []) w1 = run_in_dir os args d w1 \<and>
         (\<forall>w2. step_call os (Cmd args d) w2 = run_in_dir os args d w2) \<and>
         (\<forall>(s :: 'w state) h i. h < length (hooks s) \<and> i < length (steps (hooks s ! h)) \<and>
            steps (hooks s ! h) ! i = Cmd args [] \<and>
            world_before os (steps (hooks s ! h)) (world s) i = w1 \<and>
            (\<forall>j<i. \<exists>x. fst (step_call os (steps (hooks s ! h) ! j)
                (world_before os (steps (hooks s ! h)) (world s) j)) = Inr x) \<longrightarrow>
            steps (hooks (snd (Hook_call os h s)) ! h) ! i = Cmd args d)"
proof (intro conjI allI impI)
  show first: "step_call os (Cmd args []) w1 = run_in_dir os args d w1"
    using assms by (simp add: cmd_step_def run_in_dir_def split: prod.splits sum.splits)
  show "step_call os (Cmd args d) w2 = run_in_dir os args d w2" for w2
    using assms(2) by (simp add: cmd_step_def run_in_dir_def split: prod.splits sum.splits)
  fix s :: "'w state" and h i
  assume hook: "h < length (hooks s) \<and> i < length (steps (hooks s ! h)) \<and>
            steps (hooks s ! h) ! i = Cmd args [] \<and>
            world_before os (steps (hooks s ! h)) (world s) i = w1 \<and>
            (\<forall>j<i. \<exists>x. fst (step_call os (steps (hooks s ! h) ! j)
                (world_before os (steps (hooks s ! h)) (world s) j)) = Inr x)"
  have "fst (snd (run_in_dir os args d w1)) = Cmd args d"
    by (simp add: run_in_dir_def split: prod.splits sum.splits)
  with first have "fst (snd (step_call os (Cmd args []) w1)) = Cmd args d"
    by simp
  with hook Hook_call_closure [of h s i os]
  show "steps (hooks (snd (Hook_call os h s)) ! h) ! i = Cmd args d"
    by simp
qed

text \<open>\<open>pwd\<close> first called in \<open>/a\<close> still prints \<open>/a\<close> once the current directory is \<open>/b\<close>.\<close>

theorem cmd_step_cwd_resolved_once_witness:
  "step_call demo_os (Cmd [str_of ''pwd''] []) demo_world0 =
     (Inr \<lparr>return_code = 0, stdout = ''/a'', stderr = []\<rparr>,
      Cmd [str_of ''pwd''] (str_of ''/a''), demo_world0) \<and>
   step_call demo_os (Cmd [str_of ''pwd''] (str_of ''/a'')) (demo_world0\<lparr>demo_cwd := str_of ''/b''\<rparr>) =
     (Inr \<lparr>return_code = 0, stdout = ''/a'', stderr = []\<rparr>,
      Cmd [str_of ''pwd''] (str_of ''/a''), demo_world0\<lparr>demo_cwd := str_of ''/b''\<rparr>) \<and>
   steps (hooks (snd (Hook_call demo_os 0 demo_pwd_state)) ! 0) ! Suc 0 =
     Cmd [str_of ''pwd''] (str_of ''/a'')"
proof -
  have cwd: "getcwd demo_os (demo_world0\<lparr>demo_files := []\<rparr>) = Inr (str_of ''/a'')"
      "getcwd demo_os demo_world0 = Inr (str_of ''/a'')" "str_of ''/a'' \<noteq> []"
    by (simp_all add: demo_simps)
  have run: "run_in_dir demo_os [str_of ''pwd''] (str_of ''/a'') w =
      (Inr \<lparr>return_code = 0, stdout = ''/a'', stderr = []\<rparr>, Cmd [str_of ''pwd''] (str_of ''/a''), w)"
    for w
    by (simp add: run_in_dir_def demo_simps)
  have hook: "0 < length (hooks demo_pwd_state) \<and> Suc 0 < length (steps (hooks demo_pwd_state ! 0)) \<and>
      steps (hooks demo_pwd_state ! 0) ! Suc 0 = Cmd [str_of ''pwd''] [] \<and>
      world_before demo_os (steps (hooks demo_pwd_state ! 0)) (world demo_pwd_state) (Suc 0) =
        demo_world0\<lparr>demo_files := []\<rparr> \<and>
      (\<forall>j<Suc 0. \<exists>x. fst (step_call demo_os (steps (hooks demo_pwd_state ! 0) ! j)
          (world_before demo_os (steps (hooks demo_pwd_state ! 0)) (world demo_pwd_state) j)) = Inr x)"
    by (simp add: demo_pwd_state_def rm_step_def demo_simps)
  note inst = cmd_step_cwd_resolved_once [OF cwd(2,3), of "[str_of ''pwd'']"]
  note inst2 = cmd_step_cwd_resolved_once [OF cwd(1,3), of "[str_of ''pwd'']"]
  have "step_call demo_os (Cmd [str_of ''pwd''] []) demo_world0 =
     (Inr \<lparr>return_code = 0, stdout = ''/a'', stderr = []\<rparr>,
      Cmd [str_of ''pwd''] (str_of ''/a''), demo_world0)"
    using inst [THEN conjunct1] by (simp only: run)
  moreover have "step_call demo_os (Cmd [str_of ''pwd''] (str_of ''/a''))
      (demo_world0\<lparr>demo_cwd := str_of ''/b''\<rparr>) =
     (Inr \<lparr>return_code = 0, stdout = ''/a'', stderr = []\<rparr>,
      Cmd [str_of ''pwd''] (str_of ''/a''), demo_world0\<lparr>demo_cwd := str_of ''/b''\<rparr>)"
    using inst [THEN conjunct2, THEN conjunct1, rule_format, of "demo_world0\<lparr>demo_cwd := str_of ''/b''\<rparr>"]
    by (simp only: run)
  moreover have "steps (hooks (snd (Hook_call demo_os 0 demo_pwd_state)) ! 0) ! Suc 0 =
     Cmd [str_of ''pwd''] (str_of ''/a'')"
    by (rule inst2 [THEN conjunct2, THEN conjunct2, rule_format, OF hook])
  ultimately show ?thesis by blast
qed

section \<open>Builder\<close>

subsection \<open>Step constructors without a current hook\<close>

text \<open>The Builder that \<open>recipe\<close> returns has no hook and no current hook.\<close>

lemma recipe_new_builder:
  "builders (snd (recipe nm descr s)) ! fst (recipe nm descr s) =
     \<lparr>name = nm, description = Some descr, current_hook = None, install_hook = None,
      uninstall_hook = None, update_hook = None, is_updated_hook = None\<rparr>"
  by (simp add: recipe_def)

text \<open>
  C5: On a Builder whose current hook is unset, which is the case as long as no selection
  method has been called, each of the four step constructors raises CurrentHooksNotSet
  with the message \<open>No hook set for\<close> followed by the Builder's name, and the state is
  the one before the call: no Hook has a new step and no field of the Builder has changed.
\<close>

theorem step_constructors_need_current_hook:
  assumes "current_hook (builders s ! b) = None"
  shows "Builder_download url path b s =
           (Inl (CurrentHooksNotSet (str_of ''No hook set for '' @ name (builders s ! b))), s) \<and>
         Builder_extract src dest overwrite extract_all keep b s =
           (Inl (CurrentHooksNotSet (str_of ''No hook set for '' @ name (builders s ! b))), s) \<and>
         Builder_rm path' b s =
           (Inl (CurrentHooksNotSet (str_of ''No hook set for '' @ name (builders s ! b))), s) \<and>
         Builder_cmd args cwd b s =
           (Inl (CurrentHooksNotSet (str_of ''No hook set for '' @ name (builders s ! b))), s)"
  using assms
  by (simp add: Builder_download_def Builder_extract_def Builder_rm_def Builder_cmd_def
      check_current_hook_def)

theorem step_constructors_need_current_hook_witness:
  "Builder_download (str_of ''http://ok'') (str_of ''f'') (fst (recipe (str_of ''tool'') [] demo_state0))
       (snd (recipe (str_of ''tool'') [] demo_state0)) =
     (Inl (CurrentHooksNotSet (str_of ''No hook set for tool'')), snd (recipe (str_of ''tool'') [] demo_state0)) \<and>
   Builder_cmd [str_of ''pwd''] [] (fst (recipe (str_of ''tool'') [] demo_state0))
       (snd (recipe (str_of ''tool'') [] demo_state0)) =
     (Inl (CurrentHooksNotSet (str_of ''No hook set for tool'')), snd (recipe (str_of ''tool'') [] demo_state0))"
proof -
  have none: "current_hook (builders (snd (recipe (str_of ''tool'') [] demo_state0)) !
      fst (recipe (str_of ''tool'') [] demo_state0)) = None"
    by (simp add: recipe_new_builder)
  have msg: "str_of ''No hook set for '' @ name (builders (snd (recipe (str_of ''tool'') [] demo_state0)) !
      fst (recipe (str_of ''tool'') [] demo_state0)) = str_of ''No hook set for tool''"
    by (simp add: recipe_new_builder str_of_def)
  from step_constructors_need_current_hook [OF none] show ?thesis
    unfolding msg by blast
qed

subsection \<open>Finalization\<close>

text \<open>Once both required hooks are selected, finalization returns a Recipe.\<close>

lemma to_recipe_after_selecting_both:
  assumes "b < length (builders s)"
  shows "\<exists>r. fst (to_recipe os fmt b (snd (Builder_uninstall d2 b (snd (Builder_install d1 b s))))) = Inr r"
  using assms
  by (auto simp: to_recipe_def Builder_install_def Builder_uninstall_def Let_def split: option.splits)

text \<open>A debug variable set to the empty string is not an override.\<close>

lemma debug_override_empty_value:
  "environ_get os (str_of ''DEVM_DEBUG'') w = Some [] \<Longrightarrow> \<not> debug_override os w"
  by (simp add: debug_override_def)

text \<open>
  C4: \<open>to_recipe\<close> raises HooksMissing exactly when the install hook or the uninstall
  hook is unset and the debug override is not in force, and returns a Recipe otherwise;
  with the override in force it returns a Recipe whichever hooks are unset. It never
  changes the state, so after a failure the Builder is as before, and once both hooks have
  been selected on it finalization succeeds.
\<close>

theorem to_recipe_HooksMissing:
  "((\<exists>m. fst (to_recipe os fmt b s) = Inl (HooksMissing m)) \<longleftrightarrow>
      (install_hook (builders s ! b) = None \<or> uninstall_hook (builders s ! b) = None) \<and>
      \<not> debug_override os (world s)) \<and>
   ((\<exists>r. fst (to_recipe os fmt b s) = Inr r) \<longleftrightarrow>
      \<not> ((install_hook (builders s ! b) = None \<or> uninstall_hook (builders s ! b) = None) \<and>
         \<not> debug_override os (world s))) \<and>
   (debug_override os (world s) \<longrightarrow> (\<exists>r. fst (to_recipe os fmt b s) = Inr r)) \<and>
   snd (to_recipe os fmt b s) = s \<and>
   (b < length (builders s) \<longrightarrow>
      (\<exists>r. fst (to_recipe os fmt b
         (snd (Builder_uninstall d2 b (snd (Builder_install d1 b s))))) = Inr r))"
  using to_recipe_after_selecting_both [of b s os fmt d2 d1]
  by (auto simp: to_recipe_def Let_def)

theorem to_recipe_HooksMissing_witness:
  "(\<exists>m. fst (to_recipe demo_os demo_fmt 0 (snd (recipe (str_of ''tool'') [] demo_state0))) =
       Inl (HooksMissing m)) \<and>
   snd (to_recipe demo_os demo_fmt 0 (snd (recipe (str_of ''tool'') [] demo_state0))) =
     snd (recipe (str_of ''tool'') [] demo_state0) \<and>
   (\<exists>r. fst (to_recipe demo_os demo_fmt 0
       (snd (recipe (str_of ''tool'') [] (demo_state0\<lparr>world := demo_debug_world\<rparr>)))) = Inr r)"
proof -
  let ?s = "snd (recipe (str_of ''tool'') [] demo_state0)"
  let ?t = "snd (recipe (str_of ''tool'') [] (demo_state0\<lparr>world := demo_debug_world\<rparr>))"
  have "(install_hook (builders ?s ! 0) = None \<or> uninstall_hook (builders ?s ! 0) = None) \<and>
      \<not> debug_override demo_os (world ?s)"
    by (simp add: recipe_def debug_override_def demo_simps)
  with to_recipe_HooksMissing [of demo_os demo_fmt 0 ?s "[]" "[]"]
  have "(\<exists>m. fst (to_recipe demo_os demo_fmt 0 ?s) = Inl (HooksMissing m)) \<and>
      snd (to_recipe demo_os demo_fmt 0 ?s) = ?s"
    by blast
  moreover have "debug_override demo_os (world ?t)"
    by (simp add: recipe_def debug_override_def demo_debug_world_def demo_simps)
  with to_recipe_HooksMissing [of demo_os demo_fmt 0 ?t "[]" "[]"]
  have "\<exists>r. fst (to_recipe demo_os demo_fmt 0 ?t) = Inr r"
    by blast
  ultimately show ?thesis by blast
qed

subsection \<open>Hook selection\<close>

lemma hook_field_current_hook_update:
  "hook_field k (b\<lparr>current_hook := c\<rparr>) = hook_field k b"
  by (cases k) simp_all

text \<open>Selecting a kind whose Hook exists only moves the current-hook pointer.\<close>

lemma select_hook_existing:
  assumes "hook_field k (builders s ! b) = Some h"
  shows "select_hook k d b s =
           (b, s\<lparr>builders := (builders s)[b := (builders s ! b)\<lparr>current_hook := Some h\<rparr>]\<rparr>)"
  using assms
  by (cases k)
    (simp_all add: Builder_install_def Builder_uninstall_def Builder_update_def
      Builder_is_updated_def)

text \<open>Selecting a kind whose Hook is unset stores a new empty Hook at a fresh address.\<close>

lemma select_hook_new:
  assumes "hook_field k (builders s ! b) = None" and "b < length (builders s)"
  shows "fst (select_hook k d b s) = b"
    and "hooks (snd (select_hook k d b s)) = hooks s @ [\<lparr>steps = [], hook_description = Some d\<rparr>]"
    and "length (builders (snd (select_hook k d b s))) = length (builders s)"
    and "hook_field k (builders (snd (select_hook k d b s)) ! b) = Some (length (hooks s))"
    and "current_hook (builders (snd (select_hook k d b s)) ! b) = Some (length (hooks s))"
    and "k' \<noteq> k \<Longrightarrow> hook_field k' (builders (snd (select_hook k d b s)) ! b) =
           hook_field k' (builders s ! b)"
  using assms
  by (cases k; cases k';
      simp add: Builder_install_def Builder_uninstall_def Builder_update_def
        Builder_is_updated_def)+


text \<open>
  A selection returns the Builder, leaves it valid with the selected kind's Hook as its
  current hook, keeps every hook field that was set, and leaves the Hooks of the store in
  place: it adds a Hook only when the kind's field was unset.
\<close>

lemma select_hook_valid:
  assumes "valid_builder b s"
  shows "fst (select_hook k d b s) = b"
    and "valid_builder b (snd (select_hook k d b s))"
    and "\<exists>h. hook_field k (builders (snd (select_hook k d b s)) ! b) = Some h \<and>
             current_hook (builders (snd (select_hook k d b s)) ! b) = Some h"
    and "hook_field k' (builders s ! b) = Some h' \<Longrightarrow>
           hook_field k' (builders (snd (select_hook k d b s)) ! b) = Some h'"
    and "\<exists>new. hooks (snd (select_hook k d b s)) = hooks s @ new"
    and "hook_field k (builders s ! b) \<noteq> None \<Longrightarrow> hooks (snd (select_hook k d b s)) = hooks s"
proof -
  from assms have b: "b < length (builders s)"
    and fields: "\<And>k h. hook_field k (builders s ! b) = Some h \<Longrightarrow> h < length (hooks s)"
    by (auto simp: valid_builder_def)
  show "fst (select_hook k d b s) = b"
    using b by (cases "hook_field k (builders s ! b)")
      (simp_all add: select_hook_new(1) select_hook_existing)
  show "valid_builder b (snd (select_hook k d b s))"
  proof (cases "hook_field k (builders s ! b)")
    case (Some h)
    with b fields show ?thesis
      by (auto simp: select_hook_existing valid_builder_def hook_field_current_hook_update)
  next
    case None
    have "h < length (hooks (snd (select_hook k d b s)))"
      if "hook_field k' (builders (snd (select_hook k d b s)) ! b) = Some h" for k' h
      using that fields [of k' h] select_hook_new(2,4,6) [OF None b, where d = d]
      by (cases "k' = k") (auto simp: less_Suc_eq)
    then show ?thesis
      using b select_hook_new(2,3,5) [OF None b, where d = d]
      by (auto simp: valid_builder_def)
  qed
  show "\<exists>h. hook_field k (builders (snd (select_hook k d b s)) ! b) = Some h \<and>
             current_hook (builders (snd (select_hook k d b s)) ! b) = Some h"
  proof (cases "hook_field k (builders s ! b)")
    case (Some h)
    with b show ?thesis
      by (simp add: select_hook_existing hook_field_current_hook_update)
  next
    case None
    from select_hook_new(4,5) [OF None b] show ?thesis
      by simp
  qed
  show "hook_field k' (builders (snd (select_hook k d b s)) ! b) = Some h'"
    if "hook_field k' (builders s ! b) = Some h'"
  proof (cases "hook_field k (builders s ! b)")
    case (Some h)
    with b that show ?thesis
      by (simp add: select_hook_existing hook_field_current_hook_update)
  next
    case None
    with that have "k' \<noteq> k" by auto
    with that select_hook_new(6) [OF None b this] show ?thesis by simp
  qed
  show "\<exists>new. hooks (snd (select_hook k d b s)) = hooks s @ new"
  proof (cases "hook_field k (builders s ! b)")
    case (Some h)
    then show ?thesis
      by (simp add: select_hook_existing)
  next
    case None
    from select_hook_new(2) [OF None b] show ?thesis
      by simp
  qed
  show "hooks (snd (select_hook k d b s)) = hooks s" if "hook_field k (builders s ! b) \<noteq> None"
    using that by (auto simp: select_hook_existing)
qed


text \<open>A step constructor appends its closure to the current hook and returns the Builder.\<close>

lemma add_step_appends:
  assumes "current_hook (builders s ! b) = Some h"
  shows "add_step st b s =
           (Inr b, s\<lparr>hooks := (hooks s)[h := (hooks s ! h)\<lparr>steps := steps (hooks s ! h) @ [st]\<rparr>]\<rparr>)"
  using assms
  by (cases st)
    (simp_all add: Builder_download_def Builder_extract_def Builder_rm_def Builder_cmd_def
      check_current_hook_def current_hook_steps_append_def)

lemma chain_adds:
  assumes "current_hook (builders s ! b) = Some h" and "h < length (hooks s)"
  shows "chain (map Add ys) b s =
           (Inr b, s\<lparr>hooks := (hooks s)[h := (hooks s ! h)\<lparr>steps := steps (hooks s ! h) @ ys\<rparr>]\<rparr>)"
  using assms
proof (induction ys arbitrary: s)
  case Nil
  then show ?case by simp
next
  case (Cons y ys)
  let ?s' = "s\<lparr>hooks := (hooks s)[h := (hooks s ! h)\<lparr>steps := steps (hooks s ! h) @ [y]\<rparr>]\<rparr>"
  have "current_hook (builders ?s' ! b) = Some h" "h < length (hooks ?s')"
    using Cons.prems by simp_all
  from Cons.IH [OF this] Cons.prems show ?case
    by (simp add: add_step_appends)
qed

text \<open>
  Once a kind's Hook exists and a current hook is set, every further call on the Builder
  returns the Builder, keeps that Hook in the kind's field, and leaves the Hook's steps
  and description in place, adding steps only at the end.
\<close>

lemma apply_op_keeps:
  assumes "valid_builder b s" and "hook_field k (builders s ! b) = Some h"
    and "current_hook (builders s ! b) \<noteq> None"
  shows "\<exists>s'. apply_op op b s = (Inr b, s') \<and> valid_builder b s' \<and>
           hook_field k (builders s' ! b) = Some h \<and> current_hook (builders s' ! b) \<noteq> None \<and>
           (\<exists>zs. steps (hooks s' ! h) = steps (hooks s ! h) @ zs) \<and>
           hook_description (hooks s' ! h) = hook_description (hooks s ! h)"
proof (cases op)
  case (Select k' d)
  let ?s' = "snd (select_hook k' d b s)"
  from assms(1,2) have h: "h < length (hooks s)"
    by (auto simp: valid_builder_def)
  from select_hook_valid(5) [OF assms(1), of k' d] h have "hooks ?s' ! h = hooks s ! h"
    by (auto simp: nth_append)
  moreover have "apply_op op b s = (Inr b, ?s')"
    using select_hook_valid(1) [OF assms(1), of k' d] Select
    by (cases "select_hook k' d b s") simp
  moreover have "current_hook (builders ?s' ! b) \<noteq> None"
    using select_hook_valid(3) [OF assms(1), of k' d] by auto
  ultimately show ?thesis
    using select_hook_valid(2) [OF assms(1)] select_hook_valid(4) [OF assms(1) assms(2)]
    by auto
next
  case (Add st)
  from assms(3) obtain c where c: "current_hook (builders s ! b) = Some c"
    by auto
  let ?s' = "s\<lparr>hooks := (hooks s)[c := (hooks s ! c)\<lparr>steps := steps (hooks s ! c) @ [st]\<rparr>]\<rparr>"
  from assms(1,2) c have h: "h < length (hooks s)" "c < length (hooks s)"
    by (auto simp: valid_builder_def)
  have "apply_op op b s = (Inr b, ?s')"
    using Add c by (simp add: add_step_appends)
  moreover have "valid_builder b ?s'"
    using assms(1) by (simp add: valid_builder_def)
  moreover have "\<exists>zs. steps (hooks ?s' ! h) = steps (hooks s ! h) @ zs"
    using h by (cases "c = h") simp_all
  moreover have "hook_description (hooks ?s' ! h) = hook_description (hooks s ! h)"
    using h by (cases "c = h") simp_all
  ultimately show ?thesis
    using assms(2,3) by simp
qed

lemma chain_keeps:
  assumes "valid_builder b s" and "hook_field k (builders s ! b) = Some h"
    and "current_hook (builders s ! b) \<noteq> None"
  shows "\<exists>s'. chain ops b s = (Inr b, s') \<and> valid_builder b s' \<and>
           hook_field k (builders s' ! b) = Some h \<and> current_hook (builders s' ! b) \<noteq> None \<and>
           (\<exists>zs. steps (hooks s' ! h) = steps (hooks s ! h) @ zs) \<and>
           hook_description (hooks s' ! h) = hook_description (hooks s ! h)"
  using assms
proof (induction ops arbitrary: s)
  case Nil
  then show ?case by simp
next
  case (Cons op ops)
  from apply_op_keeps [OF Cons.prems, of op] obtain s1 zs1 where
    op: "apply_op op b s = (Inr b, s1)"
    and inv: "valid_builder b s1" "hook_field k (builders s1 ! b) = Some h"
      "current_hook (builders s1 ! b) \<noteq> None"
    and s1: "steps (hooks s1 ! h) = steps (hooks s ! h) @ zs1"
      "hook_description (hooks s1 ! h) = hook_description (hooks s ! h)"
    by blast
  from Cons.IH [OF inv] obtain s' zs where
    "chain ops b s1 = (Inr b, s')" "valid_builder b s'"
    "hook_field k (builders s' ! b) = Some h" "current_hook (builders s' ! b) \<noteq> None"
    "steps (hooks s' ! h) = steps (hooks s1 ! h) @ zs"
    "hook_description (hooks s' ! h) = hook_description (hooks s1 ! h)"
    by blast
  with op s1 show ?case
    by simp
qed

text \<open>
  C7: On a valid Builder, select a hook kind (state \<open>s1\<close>), make any chain of further
  calls on the Builder (state \<open>s2\<close>), select the same kind again (state \<open>s3\<close>) and
  add the steps \<open>ys\<close> (state \<open>s4\<close>). The first selection leaves a Hook \<open>h\<close> in the
  kind's field, new and empty if the field was unset and the Hook already there otherwise.
  The second selection returns the Builder, changes no Hook of the store, leaves \<open>h\<close> in
  the kind's field and makes it the current hook; the steps \<open>h\<close> had are still its first
  steps, its description is the one it had, and the steps added afterwards follow at the
  end. When the calls between the two selections are the step constructors \<open>xs\<close>, the
  steps of \<open>h\<close> are those it had at \<open>s1\<close>, then \<open>xs\<close>, then \<open>ys\<close>.
\<close>

theorem select_hook_again_reuses_hook:
  fixes s :: "'w state" and b :: nat and k :: hook_kind and d1 d2 :: pystr
    and ops :: "builder_op list" and xs ys :: "step list" and s1 s2 s3 s4 :: "'w state"
  defines "s1 \<equiv> snd (select_hook k d1 b s)"
    and "s2 \<equiv> snd (chain ops b s1)"
    and "s3 \<equiv> snd (select_hook k d2 b s2)"
    and "s4 \<equiv> snd (chain (map Add ys) b s3)"
  assumes "valid_builder b s"
  shows "\<exists>h. hook_field k (builders s1 ! b) = Some h \<and>
           (hook_field k (builders s ! b) = None \<longrightarrow>
              hooks s1 ! h = \<lparr>steps = [], hook_description = Some d1\<rparr>) \<and>
           (hook_field k (builders s ! b) \<noteq> None \<longrightarrow>
              hook_field k (builders s ! b) = Some h \<and> hooks s1 = hooks s) \<and>
           fst (chain ops b s1) = Inr b \<and>
           (\<exists>zs. steps (hooks s2 ! h) = steps (hooks s1 ! h) @ zs) \<and>
           fst (select_hook k d2 b s2) = b \<and>
           hooks s3 = hooks s2 \<and>
           hook_field k (builders s3 ! b) = Some h \<and>
           current_hook (builders s3 ! b) = Some h \<and>
           hook_description (hooks s3 ! h) = hook_description (hooks s1 ! h) \<and>
           fst (chain (map Add ys) b s3) = Inr b \<and>
           steps (hooks s4 ! h) = steps (hooks s2 ! h) @ ys \<and>
           (ops = map Add xs \<longrightarrow> steps (hooks s4 ! h) = steps (hooks s1 ! h) @ xs @ ys)"
proof -
  note valid = \<open>valid_builder b s\<close>
  then have b: "b < length (builders s)"
    by (simp add: valid_builder_def)
  have valid1: "valid_builder b s1"
    unfolding s1_def by (rule select_hook_valid(2) [OF valid])
  from select_hook_valid(3) [OF valid, of k d1] obtain h where
    field1: "hook_field k (builders s1 ! b) = Some h"
    and current1: "current_hook (builders s1 ! b) = Some h"
    unfolding s1_def by blast
  from valid1 field1 have h1: "h < length (hooks s1)"
    by (auto simp: valid_builder_def)
  have new: "hooks s1 ! h = \<lparr>steps = [], hook_description = Some d1\<rparr>"
    if none: "hook_field k (builders s ! b) = None"
    using select_hook_new(2,4) [OF none b, of d1] field1
    by (auto simp: s1_def)
  have old: "hook_field k (builders s ! b) = Some h \<and> hooks s1 = hooks s"
    if "hook_field k (builders s ! b) \<noteq> None"
    using that field1 b
    by (auto simp: s1_def select_hook_existing hook_field_current_hook_update)
  from chain_keeps [OF valid1 field1, of ops] current1 obtain t zs where
    chain: "chain ops b s1 = (Inr b, t)" and valid2: "valid_builder b t"
    and field2: "hook_field k (builders t ! b) = Some h"
    and steps2: "steps (hooks t ! h) = steps (hooks s1 ! h) @ zs"
    and descr2: "hook_description (hooks t ! h) = hook_description (hooks s1 ! h)"
    by auto
  have t: "s2 = t"
    by (simp add: s2_def chain)
  from valid2 field2 have b2: "b < length (builders t)" and h2: "h < length (hooks t)"
    by (auto simp: valid_builder_def)
  have select2: "select_hook k d2 b t =
      (b, t\<lparr>builders := (builders t)[b := (builders t ! b)\<lparr>current_hook := Some h\<rparr>]\<rparr>)"
    by (rule select_hook_existing [OF field2])
  then have s3: "s3 = t\<lparr>builders := (builders t)[b := (builders t ! b)\<lparr>current_hook := Some h\<rparr>]\<rparr>"
    by (simp add: s3_def t)
  have current3: "current_hook (builders s3 ! b) = Some h" and h3: "h < length (hooks s3)"
    and field3: "hook_field k (builders s3 ! b) = Some h"
    using b2 h2 field2 by (simp_all add: s3 hook_field_current_hook_update)
  from chain_adds [OF current3 h3, of ys]
  have chain4: "chain (map Add ys) b s3 =
      (Inr b, s3\<lparr>hooks := (hooks s3)[h := (hooks s3 ! h)\<lparr>steps := steps (hooks s3 ! h) @ ys\<rparr>]\<rparr>)" .
  then have steps4: "steps (hooks s4 ! h) = steps (hooks t ! h) @ ys"
    using h2 by (simp add: s4_def s3)
  have adjacent: "steps (hooks s4 ! h) = steps (hooks s1 ! h) @ xs @ ys" if "ops = map Add xs"
  proof -
    from chain_adds [OF current1 h1, of xs] chain that
    have "t = s1\<lparr>hooks := (hooks s1)[h := (hooks s1 ! h)\<lparr>steps := steps (hooks s1 ! h) @ xs\<rparr>]\<rparr>"
      by simp
    then have "steps (hooks t ! h) = steps (hooks s1 ! h) @ xs"
      using h1 by simp
    with steps4 show ?thesis by simp
  qed
  show ?thesis
    using field1 new old chain steps2 descr2 select2 field3 current3 chain4 steps4 adjacent
    by (intro exI [of _ h]) (simp add: t s3)
qed

text \<open>The store of the example after the last call.\<close>

lemma demo_built4_hooks:
  "hooks demo_built4 =
     [\<lparr>steps = [Rm (str_of ''old''), Cmd [str_of ''pwd''] []], hook_description = Some (str_of ''first'')\<rparr>,
      \<lparr>steps = [Rm (str_of ''tool'')], hook_description = Some []\<rparr>]"
  by (simp add: demo_built4_def demo_built3_def demo_built2_def demo_built1_def demo_built0_def
      demo_ops_def recipe_def demo_state0_def Builder_install_def Builder_uninstall_def
      Builder_rm_def Builder_cmd_def check_current_hook_def current_hook_steps_append_def)

theorem select_hook_again_reuses_hook_witness:
  "valid_builder 0 demo_built0 \<and>
   (\<exists>h. hook_field Install (builders demo_built3 ! 0) = Some h \<and>
      current_hook (builders demo_built3 ! 0) = Some h \<and>
      fst (select_hook Install (str_of ''second'') 0 demo_built2) = 0 \<and>
      hooks demo_built3 = hooks demo_built2 \<and>
      steps (hooks demo_built4 ! h) = steps (hooks demo_built2 ! h) @ [Cmd [str_of ''pwd''] []]) \<and>
   steps (hooks demo_built4 ! 0) = [Rm (str_of ''old''), Cmd [str_of ''pwd''] []]"
proof -
  have "hook_field k (builders demo_built0 ! 0) = None" for k
    by (cases k) (simp_all add: demo_built0_def recipe_def demo_state0_def)
  then have valid: "valid_builder 0 demo_built0"
    by (simp add: valid_builder_def) (simp add: demo_built0_def recipe_def demo_state0_def)
  from select_hook_again_reuses_hook [OF valid, of Install "str_of ''first''" demo_ops
      "str_of ''second''" "[Cmd [str_of ''pwd''] []]" "[]"]
  have "\<exists>h. hook_field Install (builders demo_built3 ! 0) = Some h \<and>
      current_hook (builders demo_built3 ! 0) = Some h \<and>
      fst (select_hook Install (str_of ''second'') 0 demo_built2) = 0 \<and>
      hooks demo_built3 = hooks demo_built2 \<and>
      steps (hooks demo_built4 ! h) = steps (hooks demo_built2 ! h) @ [Cmd [str_of ''pwd''] []]"
    unfolding demo_built1_def [symmetric] demo_built2_def [symmetric] demo_built3_def [symmetric]
      demo_built4_def [symmetric]
    by blast
  with valid show ?thesis
    by (simp add: demo_built4_hooks)
qed

subsection \<open>The fields of the Recipe\<close>

text \<open>
  A Recipe returned by \<open>to_recipe\<close> has the Builder's name and the Builder's four hook
  references, the store is the same, and its description is the empty string.
\<close>

lemma to_recipe_fields:
  assumes "to_recipe os fmt b s = (Inr r, s')"
  shows "recipe_name r = name (builders s ! b)"
    and "recipe_install_hook r = install_hook (builders s ! b)"
    and "recipe_uninstall_hook r = uninstall_hook (builders s ! b)"
    and "recipe_update_hook r = update_hook (builders s ! b)"
    and "recipe_is_updated_hook r = is_updated_hook (builders s ! b)"
    and "recipe_description r = Some []"
    and "hooks s' = hooks s"
  using assms by (auto simp: to_recipe_def Let_def split: if_splits)

text \<open>
  C8: For the Builder made by \<open>recipe("tool", "a tool").install().uninstall()\<close>, whose
  description is \<open>a tool\<close>, \<open>to_recipe\<close> returns a Recipe with the Builder's name and
  hook references whose description is the empty string, not the Builder's description.
\<close>

theorem to_recipe_drops_description:
  "description (builders demo_described ! 0) = Some (str_of ''a tool'') \<and>
   fst (to_recipe demo_os demo_fmt 0 demo_described) =
     Inr \<lparr>recipe_name = str_of ''tool'', recipe_description = Some [],
          recipe_install_hook = Some 0, recipe_uninstall_hook = Some 1,
          recipe_update_hook = None, recipe_is_updated_hook = None\<rparr>"
  by (simp add: demo_described_def to_recipe_def recipe_def Builder_install_def
      Builder_uninstall_def demo_state0_def)

section \<open>The download, extract and remove steps\<close>

text \<open>
  When the operation returns, the step returns the success code and its message; when it
  raises an instance of \<open>Exception\<close>, the step returns the internal-failure code, an
  empty stdout and the encoded description.
\<close>

lemma rm_step_returns:
  "rmtree os path w = (None, w1) \<Longrightarrow>
     rm_step os path w =
       (Inr \<lparr>return_code = EX_OK, stdout = ''removed '' @ encode_utf8_ignore path, stderr = []\<rparr>, w1)"
  "rmtree os path w = (Some (Exception d), w1) \<Longrightarrow>
     rm_step os path w =
       (Inr \<lparr>return_code = EX_SOFTWARE, stdout = [], stderr = encode_utf8_ignore d\<rparr>, w1)"
  by (simp_all add: rm_step_def)

lemma extract_step_returns:
  "xtract os src (Some dest) overwrite extract_all keep w = (None, w1) \<Longrightarrow>
     extract_step os src (Some dest) overwrite extract_all keep w =
       (Inr \<lparr>return_code = EX_OK,
             stdout = ''extracted '' @ encode_utf8_ignore src @ '' to '' @ encode_utf8_ignore dest,
             stderr = []\<rparr>, w1)"
  "xtract os src dest' overwrite extract_all keep w = (Some (Exception d), w1) \<Longrightarrow>
     extract_step os src dest' overwrite extract_all keep w =
       (Inr \<lparr>return_code = EX_SOFTWARE, stdout = [], stderr = encode_utf8_ignore d\<rparr>, w1)"
  by (simp_all add: extract_step_def)

lemma download_step_returns:
  "requests_get os url w = (Inr r, w1) \<Longrightarrow> open_wb os path w1 = (Inr f, w2) \<Longrightarrow>
   copyfileobj os r f w2 = (None, w3) \<Longrightarrow> file_close os f w3 = (None, w4) \<Longrightarrow>
     download_step os url path w =
       (Inr \<lparr>return_code = EX_OK, stdout = ''downloaded to '' @ encode_utf8_ignore path,
             stderr = []\<rparr>, w4)"
  "requests_get os url w = (Inl (Exception d), w1) \<Longrightarrow>
     download_step os url path w =
       (Inr \<lparr>return_code = EX_SOFTWARE, stdout = [], stderr = encode_utf8_ignore d\<rparr>, w1)"
  "requests_get os url w = (Inr r, w1) \<Longrightarrow> open_wb os path w1 = (Inl (Exception d), w2) \<Longrightarrow>
     download_step os url path w =
       (Inr \<lparr>return_code = EX_SOFTWARE, stdout = [], stderr = encode_utf8_ignore d\<rparr>, w2)"
  "requests_get os url w = (Inr r, w1) \<Longrightarrow> open_wb os path w1 = (Inr f, w2) \<Longrightarrow>
   copyfileobj os r f w2 = (Some (Exception d), w3) \<Longrightarrow> file_close os f w3 = (None, w4) \<Longrightarrow>
     download_step os url path w =
       (Inr \<lparr>return_code = EX_SOFTWARE, stdout = [], stderr = encode_utf8_ignore d\<rparr>, w4)"
  by (simp_all add: download_step_def with_exit_def)

text \<open>An exception that is not an instance of \<open>Exception\<close> leaves the step.\<close>

lemma rm_step_raises:
  "rmtree os path w = (Some (BaseException d), w1) \<Longrightarrow>
     rm_step os path w = (Inl (BaseException d), w1)"
  by (simp add: rm_step_def)

text \<open>
  With \<open>dest\<close> left at its default \<open>None\<close>, an extraction that returns is reported as
  a failure: building the message raises the AttributeError, which the handler takes.
\<close>

lemma extract_step_without_dest:
  "xtract os src None overwrite extract_all keep w = (None, w1) \<Longrightarrow>
     extract_step os src None overwrite extract_all keep w =
       (Inr \<lparr>return_code = EX_SOFTWARE, stdout = [],
             stderr = encode_utf8_ignore (str_of NoneType_has_no_encode)\<rparr>, w1)"
  by (simp add: extract_step_def)

text \<open>
  C2: The step of \<open>extract("t.zip")\<close>, called in a world where the extraction of
  \<open>t.zip\<close> returns without an error, returns the internal-failure code 70 with an empty
  stdout and the AttributeError's text as stderr, not the success code with the message
  naming the paths.
\<close>

theorem extract_step_default_dest_reports_failure:
  "xtract demo_os (str_of ''t.zip'') None False False False demo_world0 = (None, demo_world0) \<and>
   step_call demo_os (Extract (str_of ''t.zip'') None False False False) demo_world0 =
     (Inr \<lparr>return_code = 70, stdout = [], stderr = NoneType_has_no_encode\<rparr>,
      Extract (str_of ''t.zip'') None False False False, demo_world0)"
  by (simp add: extract_step_def demo_simps NoneType_has_no_encode_def)

end
